theory Spec2Isabelle
  imports Complex_Main
begin

section \<open>Data model of the client\<close>

text \<open>
  The development embeds the class \<open>HyperliquidClient\<close> (client.ts). The object's private
  fields become the fields of the record \<open>client\<close>; every method becomes a function that
  takes the record and returns the updated one. The objects the client holds references
  to (sockets, timers, promises) live in stores inside the same record and are named by
  their index, so that "the socket the client references" and "the sockets that exist"
  are different things.

  JavaScript values that cross the interface (payloads, error objects) are values of
  \<open>jsval\<close>. Numbers are exact rationals: the rounding of IEEE doubles is not modelled.
  The debug logger \<open>log\<close> only prints when \<open>debug\<close> is set and touches no field; it is
  left out.
\<close>

datatype jsval =
    JUndefined
  | JNull
  | JBool bool
  | JNum rat
  | JStr string
  | JArr "jsval list"
  | JObj "(string \<times> jsval) list"

text \<open>Property access \<open>data.name\<close>; a property that is absent reads \<open>undefined\<close>.\<close>

fun getProp :: "jsval \<Rightarrow> string \<Rightarrow> jsval" where
  "getProp (JObj kvs) k = (case map_of kvs k of Some v \<Rightarrow> v | None \<Rightarrow> JUndefined)"
| "getProp _ k = JUndefined"


text \<open>JavaScript truthiness, as used by \<open>!this.authenticatedWallet\<close>.\<close>

fun truthy :: "jsval \<Rightarrow> bool" where
  "truthy JUndefined = False"
| "truthy JNull = False"
| "truthy (JBool b) = b"
| "truthy (JNum n) = (n \<noteq> 0)"
| "truthy (JStr s) = (s \<noteq> [])"
| "truthy (JArr xs) = True"
| "truthy (JObj kvs) = True"

text \<open>\<open>new Error(message)\<close>: an object whose \<open>message\<close> property is the argument.\<close>

definition mkError :: "jsval \<Rightarrow> jsval" where
  "mkError m = JObj [(''message'', m)]"

datatype ConnectionState = Disconnected | Connecting | Connected | Reconnecting | Error

fun stateName :: "ConnectionState \<Rightarrow> string" where
  "stateName Disconnected = ''disconnected''"
| "stateName Connecting = ''connecting''"
| "stateName Connected = ''connected''"
| "stateName Reconnecting = ''reconnecting''"
| "stateName Error = ''error''"

datatype Network = Mainnet | Testnet

fun NETWORK_URLS :: "Network \<Rightarrow> string" where
  "NETWORK_URLS Mainnet = ''wss://api.nylium.xyz''"
| "NETWORK_URLS Testnet = ''wss://testnet.api.nylium.xyz''"

definition DEFAULT_NETWORK :: Network where
  "DEFAULT_NETWORK = Mainnet"

record ClientOptions =
  opt_network :: "Network option"
  opt_url :: "string option"
  opt_autoReconnect :: "bool option"
  opt_reconnectDelay :: "rat option"
  opt_maxReconnectAttempts :: "int option"
  opt_debug :: "bool option"

text \<open>
  The options after the constructor filled in the defaults. \<open>maxReconnectAttempts\<close> is
  a count and \<open>reconnectAttempts\<close>, which starts at 0 and is only incremented or reset,
  a natural number.
\<close>

record InternalOptions =
  network :: Network
  url :: string
  autoReconnect :: bool
  reconnectDelay :: rat
  maxReconnectAttempts :: int
  debug :: bool

subsection \<open>Caller-registered handlers\<close>

text \<open>
  A handler is a closure: \<open>hid\<close> is its identity (a JavaScript \<open>Set\<close> holds a function
  once), \<open>hbody\<close> is what a call does with the payload: \<open>None\<close> when it returns,
  \<open>Some e\<close> when it throws \<open>e\<close>. Handlers do not call back into the client.
\<close>

record handler =
  hid :: nat
  hbody :: "jsval \<Rightarrow> jsval option"

subsection \<open>The transport, timers and promises\<close>

text \<open>
  What the client does that is visible from outside is appended to \<open>trace\<close>: every call
  of the private \<open>emit\<close>, every handler invocation, every \<open>console.error\<close>, and every
  call into the socket library (\<open>io\<close>, \<open>socket.emit\<close>, \<open>socket.disconnect\<close>).
\<close>

datatype obs =
    Emitted string jsval
  | Invoked string nat jsval
  | ConsoleError string jsval
  | SocketOpened nat string
  | SocketSent nat string jsval
  | SocketSentAck nat string nat
  | SocketClosed nat

text \<open>
  The closures the client installs on a socket. Each is installed under one event name
  (\<open>cbName\<close>); the two installed by \<open>authenticate\<close> are installed with \<open>once\<close>. The
  promise a closure resolves or rejects and the timer it clears are the indices it
  captured.
\<close>

datatype callback =
    CbConnected nat
  | CbConnectError nat
  | CbDisconnect
  | CbError
  | CbRelay string string
  | CbBalance
  | CbAuthenticated nat nat
  | CbAuthError nat nat

fun cbName :: "callback \<Rightarrow> string" where
  "cbName (CbConnected p) = ''connected''"
| "cbName (CbConnectError p) = ''connect_error''"
| "cbName CbDisconnect = ''disconnect''"
| "cbName CbError = ''error''"
| "cbName (CbRelay src dst) = src"
| "cbName CbBalance = ''balance:update''"
| "cbName (CbAuthenticated t p) = ''authenticated''"
| "cbName (CbAuthError t p) = ''auth:error''"

fun isOnce :: "callback \<Rightarrow> bool" where
  "isOnce (CbAuthenticated t p) = True"
| "isOnce (CbAuthError t p) = True"
| "isOnce _ = False"

datatype sock_status = Opening | Open | Closed

record sock =
  status :: sock_status
  listeners :: "callback list"

definition live :: "sock \<Rightarrow> bool" where
  "live s = (status s \<noteq> Closed)"

datatype timer_body = ReconnectTick | AuthTimeout nat

datatype timer_status = TPending | TFired | TCleared

record timer =
  tdelay :: rat
  tbody :: timer_body
  tstatus :: timer_status

datatype pstate = Pending | Resolved jsval | Rejected jsval

text \<open>
  What a method call hands back to its caller. A synchronous method returns or throws;
  an \<open>async\<close> method returns a promise, which is already settled when the body returned
  or threw before its first suspension, and pending (an index into the promise store)
  otherwise.
\<close>

datatype outcome =
    Returns
  | Throws jsval
  | ResolvedPromise
  | RejectedPromise jsval
  | PendingPromise nat

record client =
  socket :: "nat option"
  options :: InternalOptions
  state :: ConnectionState
  reconnectAttempts :: nat
  reconnectTimer :: "nat option"
  authenticatedWallet :: jsval
  eventHandlers :: "string \<Rightarrow> handler list option"
  sockets :: "sock list"
  timers :: "timer list"
  promises :: "pstate list"
  trace :: "obs list"

section \<open>Construction\<close>

definition newClient :: "ClientOptions \<Rightarrow> client" where
  "newClient opts =
    (let net = (case opt_network opts of Some n \<Rightarrow> n | None \<Rightarrow> DEFAULT_NETWORK);
         u = (case opt_url opts of
                Some s \<Rightarrow> (if s \<noteq> [] then s else NETWORK_URLS net)
              | None \<Rightarrow> NETWORK_URLS net)
     in \<lparr> socket = None,
          options = \<lparr> network = net, url = u,
                      autoReconnect = (case opt_autoReconnect opts of Some b \<Rightarrow> b | None \<Rightarrow> True),
                      reconnectDelay = (case opt_reconnectDelay opts of Some d \<Rightarrow> d | None \<Rightarrow> 1000),
                      maxReconnectAttempts =
                        (case opt_maxReconnectAttempts opts of Some m \<Rightarrow> m | None \<Rightarrow> 10),
                      debug = (case opt_debug opts of Some b \<Rightarrow> b | None \<Rightarrow> False) \<rparr>,
          state = Disconnected,
          reconnectAttempts = 0,
          reconnectTimer = None,
          authenticatedWallet = JNull,
          eventHandlers = Map.empty,
          sockets = [],
          timers = [],
          promises = [],
          trace = [] \<rparr>)"

definition defaultOptions :: ClientOptions where
  "defaultOptions =
    \<lparr> opt_network = None, opt_url = None, opt_autoReconnect = None,
      opt_reconnectDelay = None, opt_maxReconnectAttempts = None, opt_debug = None \<rparr>"

definition getNetwork :: "client \<Rightarrow> Network" where
  "getNetwork c = network (options c)"

definition getState :: "client \<Rightarrow> ConnectionState" where
  "getState c = state c"

definition isConnected :: "client \<Rightarrow> bool" where
  "isConnected c = (state c = Connected)"

definition getAuthenticatedWallet :: "client \<Rightarrow> jsval" where
  "getAuthenticatedWallet c = authenticatedWallet c"

section \<open>Event registry and fan-out\<close>

text \<open>
  \<open>on\<close>: create the set for the event when it is missing, then add the handler (adding
  a function the set already holds changes nothing).
\<close>

definition on :: "string \<Rightarrow> handler \<Rightarrow> client \<Rightarrow> client" where
  "on event h c =
    (let hs = (case eventHandlers c event of Some hs \<Rightarrow> hs | None \<Rightarrow> [])
     in c\<lparr>eventHandlers := (eventHandlers c)
            (event \<mapsto> (if hid h \<in> set (map hid hs) then hs else hs @ [h]))\<rparr>)"

definition off :: "string \<Rightarrow> nat \<Rightarrow> client \<Rightarrow> client" where
  "off event i c =
    (case eventHandlers c event of
       None \<Rightarrow> c
     | Some hs \<Rightarrow>
         c\<lparr>eventHandlers := (eventHandlers c)(event \<mapsto> filter (\<lambda>h. hid h \<noteq> i) hs)\<rparr>)"

text \<open>\<open>if (event)\<close> is a truthiness test: the empty string clears every event.\<close>

definition removeAllListeners :: "string option \<Rightarrow> client \<Rightarrow> client" where
  "removeAllListeners event c =
    (case event of
       Some e \<Rightarrow>
         (if e \<noteq> [] then c\<lparr>eventHandlers := (eventHandlers c)(e := None)\<rparr>
          else c\<lparr>eventHandlers := Map.empty\<rparr>)
     | None \<Rightarrow> c\<lparr>eventHandlers := Map.empty\<rparr>)"

text \<open>
  The body of \<open>handlers.forEach\<close> in \<open>emit\<close>: call the handler inside \<open>try\<close>; the
  \<open>catch\<close> branch writes to \<open>console.error\<close> and the loop goes on.
\<close>

fun deliver :: "string \<Rightarrow> jsval \<Rightarrow> handler list \<Rightarrow> obs list" where
  "deliver event d [] = []"
| "deliver event d (h # hs) =
     Invoked event (hid h) d #
     (case hbody h d of
        None \<Rightarrow> deliver event d hs
      | Some e \<Rightarrow> ConsoleError event e # deliver event d hs)"

definition emit :: "string \<Rightarrow> jsval \<Rightarrow> client \<Rightarrow> client" where
  "emit event d c =
    c\<lparr>trace := trace c @ Emitted event d #
        (case eventHandlers c event of None \<Rightarrow> [] | Some hs \<Rightarrow> deliver event d hs)\<rparr>"

definition setState :: "ConnectionState \<Rightarrow> client \<Rightarrow> client" where
  "setState s c = emit ''stateChange'' (JStr (stateName s)) (c\<lparr>state := s\<rparr>)"

section \<open>Timers, promises and the socket library\<close>

text \<open>
  \<open>setTimeout\<close> appends a pending timer and returns its index; \<open>clearTimeout\<close> cancels
  a timer that is still pending and does nothing otherwise. Settling a promise that is
  already settled does nothing.
\<close>

definition setTimeout :: "timer_body \<Rightarrow> rat \<Rightarrow> client \<Rightarrow> client" where
  "setTimeout b d c =
    c\<lparr>timers := timers c @ [\<lparr>tdelay = d, tbody = b, tstatus = TPending\<rparr>]\<rparr>"

definition clearTimeout :: "nat \<Rightarrow> client \<Rightarrow> client" where
  "clearTimeout t c =
    (if t < length (timers c) \<and> tstatus (timers c ! t) = TPending
     then c\<lparr>timers := (timers c)[t := (timers c ! t)\<lparr>tstatus := TCleared\<rparr>]\<rparr>
     else c)"

definition settle :: "nat \<Rightarrow> pstate \<Rightarrow> client \<Rightarrow> client" where
  "settle p v c =
    (if p < length (promises c) \<and> promises c ! p = Pending
     then c\<lparr>promises := (promises c)[p := v]\<rparr>
     else c)"

text \<open>
  The socket library (socket.io-client) is not part of the repository. The model keeps
  what the client relies on: \<open>io(url, ...)\<close> makes a fresh socket that is opening;
  \<open>socket.on\<close> and \<open>socket.once\<close> append a listener; \<open>socket.emit\<close> sends a message;
  an incoming event runs, in order, the listeners installed under its name (a \<open>once\<close>
  listener is taken off just before it runs); \<open>socket.disconnect()\<close> closes the socket
  and, when it was open, fires its \<open>disconnect\<close> listeners with the reason
  \<open>io client disconnect\<close>, the case \<open>handleDisconnect\<close> tests for. With
  \<open>reconnection: false\<close> a socket that failed to connect or was disconnected stays
  closed.
\<close>

definition io :: "string \<Rightarrow> client \<Rightarrow> client" where
  "io u c =
    c\<lparr>sockets := sockets c @ [\<lparr>status = Opening, listeners = []\<rparr>],
      trace := trace c @ [SocketOpened (length (sockets c)) u]\<rparr>"

definition addListener :: "nat \<Rightarrow> callback \<Rightarrow> client \<Rightarrow> client" where
  "addListener s cb c =
    (if s < length (sockets c)
     then c\<lparr>sockets := (sockets c)
            [s := (sockets c ! s)\<lparr>listeners := listeners (sockets c ! s) @ [cb]\<rparr>]\<rparr>
     else c)"

definition removeListener :: "nat \<Rightarrow> callback \<Rightarrow> client \<Rightarrow> client" where
  "removeListener s cb c =
    (if s < length (sockets c)
     then c\<lparr>sockets := (sockets c)
            [s := (sockets c ! s)\<lparr>listeners := remove1 cb (listeners (sockets c ! s))\<rparr>]\<rparr>
     else c)"

definition setStatus :: "nat \<Rightarrow> sock_status \<Rightarrow> client \<Rightarrow> client" where
  "setStatus s st c =
    (if s < length (sockets c)
     then c\<lparr>sockets := (sockets c)[s := (sockets c ! s)\<lparr>status := st\<rparr>]\<rparr>
     else c)"

definition socketEmit :: "nat \<Rightarrow> string \<Rightarrow> jsval \<Rightarrow> client \<Rightarrow> client" where
  "socketEmit s name d c = c\<lparr>trace := trace c @ [SocketSent s name d]\<rparr>"

definition socketEmitAck :: "nat \<Rightarrow> string \<Rightarrow> nat \<Rightarrow> client \<Rightarrow> client" where
  "socketEmitAck s name p c = c\<lparr>trace := trace c @ [SocketSentAck s name p]\<rparr>"

section \<open>Reconnection policy\<close>

definition scheduleReconnect :: "client \<Rightarrow> client" where
  "scheduleReconnect c =
    (if int (reconnectAttempts c) \<ge> maxReconnectAttempts (options c) then
       emit ''error''
         (JObj [(''code'', JStr ''MAX_RECONNECT_ATTEMPTS''),
                (''message'', JStr ''Maximum reconnection attempts reached'')])
         (setState Error c)
     else
       (let c1 = c\<lparr>reconnectAttempts := reconnectAttempts c + 1\<rparr>;
            c2 = setState Reconnecting c1;
            delay = reconnectDelay (options c2) * (3 / 2) ^ (reconnectAttempts c2 - 1);
            c3 = emit ''reconnecting''
                   (JObj [(''attempt'', JNum (of_nat (reconnectAttempts c2))),
                          (''maxAttempts'', JNum (of_int (maxReconnectAttempts (options c2))))])
                   c2;
            t = length (timers c3)
        in (setTimeout ReconnectTick delay c3)\<lparr>reconnectTimer := Some t\<rparr>))"

definition handleConnectionError :: "jsval \<Rightarrow> client \<Rightarrow> client" where
  "handleConnectionError err c =
    (let c1 = emit ''error''
                (JObj [(''code'', JStr ''CONNECTION_ERROR''),
                       (''message'', getProp err ''message'')]) c
     in if autoReconnect (options c1) then scheduleReconnect c1 else setState Error c1)"

definition handleDisconnect :: "jsval \<Rightarrow> client \<Rightarrow> client" where
  "handleDisconnect reason c =
    (let c1 = setState Disconnected c;
         c2 = emit ''disconnected'' (JObj [(''reason'', reason)]) c1
     in if autoReconnect (options c2) \<and> reason \<noteq> JStr ''io client disconnect''
        then scheduleReconnect c2 else c2)"

section \<open>Socket listeners\<close>

text \<open>The bodies of the closures, in the order the source installs them.\<close>

fun runCallback :: "callback \<Rightarrow> jsval \<Rightarrow> client \<Rightarrow> client" where
  "runCallback (CbConnected p) d c =
     settle p (Resolved JUndefined)
       (emit ''connected'' d ((setState Connected c)\<lparr>reconnectAttempts := 0\<rparr>))"
| "runCallback (CbConnectError p) d c =
     (let c1 = handleConnectionError d c
      in if state c1 = Connecting then settle p (Rejected d) c1 else c1)"
| "runCallback CbDisconnect d c = handleDisconnect d c"
| "runCallback CbError d c = emit ''error'' d c"
| "runCallback (CbRelay src dst) d c = emit dst d c"
| "runCallback CbBalance d c = emit ''balance'' (getProp d ''balance'') c"
| "runCallback (CbAuthenticated t p) d c =
     settle p (Resolved JUndefined)
       (emit ''authenticated'' d
         ((clearTimeout t c)\<lparr>authenticatedWallet := getProp d ''wallet''\<rparr>))"
| "runCallback (CbAuthError t p) d c =
     settle p (Rejected (mkError (getProp d ''message''))) (clearTimeout t c)"

fun dispatchAll :: "nat \<Rightarrow> callback list \<Rightarrow> jsval \<Rightarrow> client \<Rightarrow> client" where
  "dispatchAll s [] d c = c"
| "dispatchAll s (cb # cbs) d c =
     dispatchAll s cbs d
       (runCallback cb d (if isOnce cb then removeListener s cb c else c))"

definition dispatch :: "nat \<Rightarrow> string \<Rightarrow> jsval \<Rightarrow> client \<Rightarrow> client" where
  "dispatch s name d c =
    (if s < length (sockets c)
     then dispatchAll s (filter (\<lambda>cb. cbName cb = name) (listeners (sockets c ! s))) d c
     else c)"

definition socketDisconnect :: "nat \<Rightarrow> client \<Rightarrow> client" where
  "socketDisconnect s c =
    (let c1 = c\<lparr>trace := trace c @ [SocketClosed s]\<rparr>
     in if s < length (sockets c1) then
          (case status (sockets c1 ! s) of
             Open \<Rightarrow> dispatch s ''disconnect'' (JStr ''io client disconnect'')
                       (setStatus s Closed c1)
           | Opening \<Rightarrow> setStatus s Closed c1
           | Closed \<Rightarrow> c1)
        else c1)"

definition dataListeners :: "callback list" where
  "dataListeners =
    [CbRelay ''prices:snapshot'' ''prices'',
     CbRelay ''prices:update'' ''prices'',
     CbRelay ''price:snapshot'' ''price'',
     CbRelay ''price:update'' ''price'',
     CbRelay ''orderbook:snapshot'' ''orderbook'',
     CbRelay ''orderbook:update'' ''orderbook'',
     CbRelay ''trades:snapshot'' ''trades'',
     CbRelay ''trades:update'' ''trades'',
     CbRelay ''candle:snapshot'' ''candles'',
     CbRelay ''candle:update'' ''candle'',
     CbRelay ''position:snapshot'' ''positions'',
     CbRelay ''position:update'' ''position'',
     CbRelay ''position:closed'' ''positionClosed'',
     CbRelay ''openOrder:snapshot'' ''openOrders'',
     CbRelay ''openOrder:update'' ''openOrder'',
     CbRelay ''openOrder:removed'' ''orderRemoved'',
     CbRelay ''orderHistory:snapshot'' ''orderHistory'',
     CbRelay ''orderHistory:update'' ''orderFill'',
     CbRelay ''funding:snapshot'' ''fundings'',
     CbRelay ''funding:update'' ''funding'',
     CbBalance,
     CbRelay ''subscribed'' ''subscribed'',
     CbRelay ''unsubscribed'' ''unsubscribed'']"

definition setupDataListeners :: "client \<Rightarrow> client" where
  "setupDataListeners c =
    (case socket c of
       None \<Rightarrow> c
     | Some s \<Rightarrow> fold (addListener s) dataListeners c)"

section \<open>Connection methods\<close>

definition connect :: "client \<Rightarrow> outcome \<times> client" where
  "connect c =
    (if state c = Connected \<or> state c = Connecting then (ResolvedPromise, c)
     else
       (let c1 = setState Connecting c;
            p = length (promises c1);
            c2 = c1\<lparr>promises := promises c1 @ [Pending]\<rparr>;
            s = length (sockets c2);
            c3 = (io (url (options c2)) c2)\<lparr>socket := Some s\<rparr>;
            c4 = fold (addListener s)
                   [CbConnected p, CbConnectError p, CbDisconnect, CbError] c3
        in (PendingPromise p, setupDataListeners c4)))"

definition disconnect :: "client \<Rightarrow> client" where
  "disconnect c =
    (let c1 = (case reconnectTimer c of
                 Some t \<Rightarrow> (clearTimeout t c)\<lparr>reconnectTimer := None\<rparr>
               | None \<Rightarrow> c);
         c2 = (case socket c1 of
                 Some s \<Rightarrow> (socketDisconnect s c1)\<lparr>socket := None\<rparr>
               | None \<Rightarrow> c1);
         c3 = setState Disconnected c2
     in c3\<lparr>authenticatedWallet := JNull\<rparr>)"

section \<open>Connected-only methods\<close>

text \<open>
  \<open>ensureConnected\<close> throws unless there is a socket and the state is \<open>connected\<close>;
  on success the model hands back the socket that \<open>this.socket!\<close> then denotes.
\<close>

definition notConnected :: jsval where
  "notConnected = mkError (JStr ''Not connected. Call connect() first.'')"

definition notAuthenticated :: jsval where
  "notAuthenticated = mkError (JStr ''Not authenticated. Call authenticate(wallet) first.'')"

definition ensureConnected :: "client \<Rightarrow> jsval + nat" where
  "ensureConnected c =
    (case socket c of
       None \<Rightarrow> Inl notConnected
     | Some s \<Rightarrow> (if state c \<noteq> Connected then Inl notConnected else Inr s))"

definition ensureAuthenticated :: "client \<Rightarrow> jsval option" where
  "ensureAuthenticated c =
    (if \<not> truthy (authenticatedWallet c) then Some notAuthenticated else None)"

definition subscribePrices :: "string option \<Rightarrow> client \<Rightarrow> outcome \<times> client" where
  "subscribePrices asset c =
    (case ensureConnected c of
       Inl e \<Rightarrow> (Throws e, c)
     | Inr s \<Rightarrow>
         (Returns,
          socketEmit s ''subscribe:price''
            (case asset of
               Some a \<Rightarrow> (if a \<noteq> [] then JObj [(''asset'', JStr a)] else JObj [])
             | None \<Rightarrow> JObj []) c))"

definition getPrices :: "string list \<Rightarrow> client \<Rightarrow> outcome \<times> client" where
  "getPrices assets c =
    (case ensureConnected c of
       Inl e \<Rightarrow> (Throws e, c)
     | Inr s \<Rightarrow>
         (Returns, socketEmit s ''get:prices'' (JObj [(''assets'', JArr (map JStr assets))]) c))"

definition subscribeOrderBook :: "string \<Rightarrow> client \<Rightarrow> outcome \<times> client" where
  "subscribeOrderBook asset c =
    (case ensureConnected c of
       Inl e \<Rightarrow> (Throws e, c)
     | Inr s \<Rightarrow> (Returns, socketEmit s ''subscribe:orderbook'' (JObj [(''asset'', JStr asset)]) c))"

definition subscribeTrades :: "string \<Rightarrow> client \<Rightarrow> outcome \<times> client" where
  "subscribeTrades asset c =
    (case ensureConnected c of
       Inl e \<Rightarrow> (Throws e, c)
     | Inr s \<Rightarrow> (Returns, socketEmit s ''subscribe:trades'' (JObj [(''asset'', JStr asset)]) c))"

definition subscribeCandles :: "string \<Rightarrow> string \<Rightarrow> client \<Rightarrow> outcome \<times> client" where
  "subscribeCandles asset interval c =
    (case ensureConnected c of
       Inl e \<Rightarrow> (Throws e, c)
     | Inr s \<Rightarrow>
         (Returns,
          socketEmit s ''subscribe:candle''
            (JObj [(''coin'', JStr asset), (''interval'', JStr interval)]) c))"

definition unsubscribe :: "string \<Rightarrow> client \<Rightarrow> outcome \<times> client" where
  "unsubscribe room c =
    (case ensureConnected c of
       Inl e \<Rightarrow> (Throws e, c)
     | Inr s \<Rightarrow> (Returns, socketEmit s ''unsubscribe'' (JObj [(''room'', JStr room)]) c))"

definition authenticate :: "string \<Rightarrow> client \<Rightarrow> outcome \<times> client" where
  "authenticate wallet c =
    (case ensureConnected c of
       Inl e \<Rightarrow> (RejectedPromise e, c)
     | Inr s \<Rightarrow>
         (let p = length (promises c);
              c1 = c\<lparr>promises := promises c @ [Pending]\<rparr>;
              t = length (timers c1);
              c2 = setTimeout (AuthTimeout p) 10000 c1;
              c3 = addListener s (CbAuthenticated t p) c2;
              c4 = addListener s (CbAuthError t p) c3
          in (PendingPromise p, socketEmit s ''authenticate'' (JObj [(''wallet'', JStr wallet)]) c4)))"

definition getBalance :: "client \<Rightarrow> outcome \<times> client" where
  "getBalance c =
    (case ensureConnected c of
       Inl e \<Rightarrow> (RejectedPromise e, c)
     | Inr s \<Rightarrow>
         (case ensureAuthenticated c of
            Some e \<Rightarrow> (RejectedPromise e, c)
          | None \<Rightarrow>
              (let p = length (promises c);
                   c1 = c\<lparr>promises := promises c @ [Pending]\<rparr>
               in (PendingPromise p, socketEmitAck s ''get:userBalance'' p c1))))"

section \<open>The client as a machine driven by its caller and its environment\<close>

text \<open>
  One input is one turn of the event loop: a method call by the caller, or something the
  environment does: the transport of a socket opens, fails to connect or goes down, the
  server sends a message or acknowledges a request, a timer expires. The socket library
  only reports on sockets in the matching status, and a server cannot send the names the
  library reserves. An input that cannot happen in the current client leaves it as it is.
\<close>

datatype input =
    CallConnect
  | CallDisconnect
  | CallSubscribePrices "string option"
  | CallGetPrices "string list"
  | CallSubscribeOrderBook string
  | CallSubscribeTrades string
  | CallSubscribeCandles string string
  | CallUnsubscribe string
  | CallAuthenticate string
  | CallGetBalance
  | CallOn string handler
  | CallOff string nat
  | CallRemoveAllListeners "string option"
  | TransportConnect nat
  | TransportConnectError nat jsval
  | TransportDisconnect nat jsval
  | ServerMessage nat string jsval
  | ServerAck nat nat jsval
  | TimerFires nat

definition reservedNames :: "string list" where
  "reservedNames = [''connect'', ''connect_error'', ''disconnect'', ''disconnecting'',
                    ''newListener'', ''removeListener'']"

text \<open>
  The requests sent with an acknowledgment callback (socket, promise the callback
  resolves); the server can acknowledge only these.
\<close>

fun ackRequests :: "obs list \<Rightarrow> (nat \<times> nat) list" where
  "ackRequests [] = []"
| "ackRequests (SocketSentAck s n p # os) = (s, p) # ackRequests os"
| "ackRequests (_ # os) = ackRequests os"

definition hasStatus :: "nat \<Rightarrow> sock_status \<Rightarrow> client \<Rightarrow> bool" where
  "hasStatus s st c = (s < length (sockets c) \<and> status (sockets c ! s) = st)"

definition timerFires :: "nat \<Rightarrow> client \<Rightarrow> client" where
  "timerFires t c =
    (if t < length (timers c) \<and> tstatus (timers c ! t) = TPending then
       (let c1 = c\<lparr>timers := (timers c)[t := (timers c ! t)\<lparr>tstatus := TFired\<rparr>]\<rparr>
        in case tbody (timers c ! t) of
             ReconnectTick \<Rightarrow> snd (connect c1)
           | AuthTimeout p \<Rightarrow> settle p (Rejected (mkError (JStr ''Authentication timeout''))) c1)
     else c)"

fun exec :: "input \<Rightarrow> client \<Rightarrow> outcome \<times> client" where
  "exec CallConnect c = connect c"
| "exec CallDisconnect c = (Returns, disconnect c)"
| "exec (CallSubscribePrices asset) c = subscribePrices asset c"
| "exec (CallGetPrices assets) c = getPrices assets c"
| "exec (CallSubscribeOrderBook asset) c = subscribeOrderBook asset c"
| "exec (CallSubscribeTrades asset) c = subscribeTrades asset c"
| "exec (CallSubscribeCandles asset interval) c = subscribeCandles asset interval c"
| "exec (CallUnsubscribe room) c = unsubscribe room c"
| "exec (CallAuthenticate wallet) c = authenticate wallet c"
| "exec CallGetBalance c = getBalance c"
| "exec (CallOn event h) c = (Returns, on event h c)"
| "exec (CallOff event i) c = (Returns, off event i c)"
| "exec (CallRemoveAllListeners event) c = (Returns, removeAllListeners event c)"
| "exec (TransportConnect s) c =
     (Returns, if hasStatus s Opening c then setStatus s Open c else c)"
| "exec (TransportConnectError s err) c =
     (Returns, if hasStatus s Opening c
               then dispatch s ''connect_error'' err (setStatus s Closed c) else c)"
| "exec (TransportDisconnect s reason) c =
     (Returns, if hasStatus s Open c
               then dispatch s ''disconnect'' reason (setStatus s Closed c) else c)"
| "exec (ServerMessage s name d) c =
     (Returns, if hasStatus s Open c \<and> name \<notin> set reservedNames
               then dispatch s name d c else c)"
| "exec (ServerAck s p v) c =
     (Returns, if hasStatus s Open c \<and> (s, p) \<in> set (ackRequests (trace c))
               then settle p (Resolved v) c else c)"
| "exec (TimerFires t) c = (Returns, timerFires t c)"

definition step :: "input \<Rightarrow> client \<Rightarrow> client" where
  "step i c = snd (exec i c)"

fun run :: "input list \<Rightarrow> client \<Rightarrow> client" where
  "run [] c = c"
| "run (i # is) c = run is (step i c)"

subsection \<open>Reading the trace\<close>

fun emitted :: "obs list \<Rightarrow> (string \<times> jsval) list" where
  "emitted [] = []"
| "emitted (Emitted event d # os) = (event, d) # emitted os"
| "emitted (_ # os) = emitted os"

fun payloads :: "string \<Rightarrow> obs list \<Rightarrow> jsval list" where
  "payloads event [] = []"
| "payloads event (Emitted e d # os) =
     (if e = event then d # payloads event os else payloads event os)"
| "payloads event (_ # os) = payloads event os"

fun invoked :: "obs list \<Rightarrow> (string \<times> nat \<times> jsval) list" where
  "invoked [] = []"
| "invoked (Invoked event i d # os) = (event, i, d) # invoked os"
| "invoked (_ # os) = invoked os"

fun consoleErrors :: "obs list \<Rightarrow> (string \<times> jsval) list" where
  "consoleErrors [] = []"
| "consoleErrors (ConsoleError event e # os) = (event, e) # consoleErrors os"
| "consoleErrors (_ # os) = consoleErrors os"

fun transportIO :: "obs list \<Rightarrow> obs list" where
  "transportIO [] = []"
| "transportIO (SocketOpened s u # os) = SocketOpened s u # transportIO os"
| "transportIO (SocketSent s n d # os) = SocketSent s n d # transportIO os"
| "transportIO (SocketSentAck s n p # os) = SocketSentAck s n p # transportIO os"
| "transportIO (SocketClosed s # os) = SocketClosed s # transportIO os"
| "transportIO (_ # os) = transportIO os"

definition liveSockets :: "client \<Rightarrow> nat list" where
  "liveSockets c = filter (\<lambda>i. live (sockets c ! i)) [0..<length (sockets c)]"

definition pendingReconnects :: "client \<Rightarrow> nat list" where
  "pendingReconnects c =
    filter (\<lambda>t. tstatus (timers c ! t) = TPending \<and> tbody (timers c ! t) = ReconnectTick)
      [0..<length (timers c)]"

section \<open>Invariant of the reachable clients\<close>

text \<open>
  The listeners \<open>connect\<close> leaves on the socket it opened: the four connection listeners
  followed by the data listeners.
\<close>

definition connectListeners :: "nat \<Rightarrow> callback list" where
  "connectListeners p =
     [CbConnected p, CbConnectError p, CbDisconnect, CbError] @ dataListeners"

text \<open>
  A socket's listeners are those of the \<open>connect\<close> call that opened it, followed by the
  \<open>once\<close> listeners of \<open>authenticate\<close> calls that have not fired yet.
\<close>

definition wfListeners :: "callback list \<Rightarrow> bool" where
  "wfListeners ls = (\<exists>p auths. ls = connectListeners p @ auths \<and> list_all isOnce auths)"

definition wf_sockets :: "client \<Rightarrow> bool" where
  "wf_sockets c = (\<forall>s \<in> set (sockets c). wfListeners (listeners s))"

text \<open>
  A socket that is not closed is the one the client references, and the client is then
  connecting or connected.
\<close>

definition one_live :: "client \<Rightarrow> bool" where
  "one_live c =
     (\<forall>i < length (sockets c). live (sockets c ! i) \<longrightarrow>
        socket c = Some i \<and> (state c = Connecting \<or> state c = Connected))"

definition no_live :: "client \<Rightarrow> bool" where
  "no_live c = (\<forall>i < length (sockets c). \<not> live (sockets c ! i))"

definition client_inv :: "client \<Rightarrow> bool" where
  "client_inv c = (one_live c \<and> wf_sockets c)"

definition handlersFor :: "client \<Rightarrow> string \<Rightarrow> handler list" where
  "handlersFor c event = (case eventHandlers c event of None \<Rightarrow> [] | Some hs \<Rightarrow> hs)"

section \<open>Concrete runs\<close>

definition freshClient :: client where
  "freshClient = newClient defaultOptions"

definition ackMsg :: jsval where
  "ackMsg = JObj [(''clientId'', JStr ''c1'')]"

definition connErr :: jsval where
  "connErr = JObj [(''message'', JStr ''websocket error'')]"

definition thrower :: handler where
  "thrower = \<lparr>hid = 1, hbody = (\<lambda>d. Some (JStr ''boom''))\<rparr>"

definition quiet :: handler where
  "quiet = \<lparr>hid = 2, hbody = (\<lambda>d. None)\<rparr>"







text \<open>A caller that watches \<open>stateChange\<close>, connects and disconnects.\<close>

definition watching :: client where
  "watching =
    run [CallOn ''stateChange'' quiet, CallConnect, TransportConnect 0,
         ServerMessage 0 ''connected'' ackMsg] freshClient"

definition watched :: client where
  "watched = step CallDisconnect watching"

text \<open>Two handlers for \<open>prices\<close>, the first of which throws.\<close>

definition twoHandlers :: client where
  "twoHandlers = run [CallOn ''prices'' thrower, CallOn ''prices'' quiet] freshClient"



text \<open>A connected client with one handler for \<open>prices\<close>.\<close>

definition ackInputs :: "input list" where
  "ackInputs =
    [CallOn ''prices'' quiet, CallConnect, TransportConnect 0,
     ServerMessage 0 ''connected'' ackMsg]"

definition acked :: client where
  "acked = run ackInputs (newClient defaultOptions)"

definition walletMsg :: jsval where
  "walletMsg = JObj [(''wallet'', JStr ''0xabc'')]"

text \<open>Authenticated; then the transport goes down; then the retry is acknowledged.\<close>

definition authenticated :: client where
  "authenticated =
    run [CallAuthenticate ''0xabc'', ServerMessage 0 ''authenticated'' walletMsg] acked"

definition dropped :: client where
  "dropped = step (TransportDisconnect 0 (JStr ''transport close'')) authenticated"

definition resumed :: client where
  "resumed =
    run [TimerFires 1, TransportConnect 1, ServerMessage 1 ''connected'' ackMsg] dropped"

text \<open>One retry allowed, both attempts fail.\<close>

definition oneRetryOptions :: ClientOptions where
  "oneRetryOptions = defaultOptions\<lparr>opt_maxReconnectAttempts := Some 1\<rparr>"



text \<open>The caller connects by hand while the retry timer is pending; that attempt fails.\<close>

definition staleTimer :: client where
  "staleTimer =
    run [CallConnect, TransportConnectError 0 connErr, CallConnect,
         TransportConnectError 1 connErr] (newClient oneRetryOptions)"

section \<open>Lemmas\<close>

subsection \<open>Reading the trace\<close>

lemma emitted_append [simp]: "emitted (xs @ ys) = emitted xs @ emitted ys"
  by (induction xs rule: emitted.induct) simp_all

lemma payloads_append [simp]: "payloads e (xs @ ys) = payloads e xs @ payloads e ys"
  by (induction e xs rule: payloads.induct) simp_all

lemma invoked_append [simp]: "invoked (xs @ ys) = invoked xs @ invoked ys"
  by (induction xs rule: invoked.induct) simp_all

lemma consoleErrors_append [simp]: "consoleErrors (xs @ ys) = consoleErrors xs @ consoleErrors ys"
  by (induction xs rule: consoleErrors.induct) simp_all

lemma transportIO_append [simp]: "transportIO (xs @ ys) = transportIO xs @ transportIO ys"
  by (induction xs rule: transportIO.induct) simp_all

lemma emitted_deliver [simp]: "emitted (deliver e d hs) = []"
  by (induction hs) (simp_all split: option.split)

lemma payloads_deliver [simp]: "payloads e' (deliver e d hs) = []"
  by (induction hs) (simp_all split: option.split)

lemma transportIO_deliver [simp]: "transportIO (deliver e d hs) = []"
  by (induction hs) (simp_all split: option.split)

lemma invoked_deliver: "invoked (deliver e d hs) = map (\<lambda>h. (e, hid h, d)) hs"
  by (induction hs) (simp_all split: option.split)

lemma consoleErrors_deliver:
  "consoleErrors (deliver e d hs) = map (Pair e) (List.map_filter (\<lambda>h. hbody h d) hs)"
  by (induction hs) (simp_all add: List.map_filter_simps split: option.split)

subsection \<open>What each operation leaves unchanged\<close>

lemma emit_fields [simp]:
  "socket (emit e d c) = socket c" "options (emit e d c) = options c"
  "state (emit e d c) = state c" "reconnectAttempts (emit e d c) = reconnectAttempts c"
  "reconnectTimer (emit e d c) = reconnectTimer c"
  "authenticatedWallet (emit e d c) = authenticatedWallet c"
  "eventHandlers (emit e d c) = eventHandlers c" "sockets (emit e d c) = sockets c"
  "timers (emit e d c) = timers c" "promises (emit e d c) = promises c"
  by (simp_all add: emit_def)

lemma setState_fields [simp]:
  "socket (setState s c) = socket c" "options (setState s c) = options c"
  "state (setState s c) = s" "reconnectAttempts (setState s c) = reconnectAttempts c"
  "reconnectTimer (setState s c) = reconnectTimer c"
  "authenticatedWallet (setState s c) = authenticatedWallet c"
  "eventHandlers (setState s c) = eventHandlers c" "sockets (setState s c) = sockets c"
  "timers (setState s c) = timers c" "promises (setState s c) = promises c"
  by (simp_all add: setState_def)

lemma settle_fields [simp]:
  "socket (settle p v c) = socket c" "options (settle p v c) = options c"
  "state (settle p v c) = state c" "reconnectAttempts (settle p v c) = reconnectAttempts c"
  "reconnectTimer (settle p v c) = reconnectTimer c"
  "authenticatedWallet (settle p v c) = authenticatedWallet c"
  "eventHandlers (settle p v c) = eventHandlers c" "sockets (settle p v c) = sockets c"
  "timers (settle p v c) = timers c" "trace (settle p v c) = trace c"
  by (simp_all add: settle_def)

lemma clearTimeout_fields [simp]:
  "socket (clearTimeout t c) = socket c" "options (clearTimeout t c) = options c"
  "state (clearTimeout t c) = state c" "reconnectAttempts (clearTimeout t c) = reconnectAttempts c"
  "reconnectTimer (clearTimeout t c) = reconnectTimer c"
  "authenticatedWallet (clearTimeout t c) = authenticatedWallet c"
  "eventHandlers (clearTimeout t c) = eventHandlers c" "sockets (clearTimeout t c) = sockets c"
  "promises (clearTimeout t c) = promises c" "trace (clearTimeout t c) = trace c"
  by (simp_all add: clearTimeout_def)

lemma setTimeout_fields [simp]:
  "socket (setTimeout b t c) = socket c" "options (setTimeout b t c) = options c"
  "state (setTimeout b t c) = state c" "reconnectAttempts (setTimeout b t c) = reconnectAttempts c"
  "reconnectTimer (setTimeout b t c) = reconnectTimer c"
  "authenticatedWallet (setTimeout b t c) = authenticatedWallet c"
  "eventHandlers (setTimeout b t c) = eventHandlers c" "sockets (setTimeout b t c) = sockets c"
  "promises (setTimeout b t c) = promises c" "trace (setTimeout b t c) = trace c"
  by (simp_all add: setTimeout_def)

lemma scheduleReconnect_fields [simp]:
  "socket (scheduleReconnect c) = socket c" "options (scheduleReconnect c) = options c"
  "authenticatedWallet (scheduleReconnect c) = authenticatedWallet c"
  "eventHandlers (scheduleReconnect c) = eventHandlers c"
  "sockets (scheduleReconnect c) = sockets c" "promises (scheduleReconnect c) = promises c"
  by (simp_all add: scheduleReconnect_def Let_def)

lemma handleConnectionError_fields [simp]:
  "socket (handleConnectionError e c) = socket c" "options (handleConnectionError e c) = options c"
  "authenticatedWallet (handleConnectionError e c) = authenticatedWallet c"
  "eventHandlers (handleConnectionError e c) = eventHandlers c"
  "sockets (handleConnectionError e c) = sockets c" "promises (handleConnectionError e c) = promises c"
  by (simp_all add: handleConnectionError_def Let_def)

lemma handleDisconnect_fields [simp]:
  "socket (handleDisconnect r c) = socket c" "options (handleDisconnect r c) = options c"
  "authenticatedWallet (handleDisconnect r c) = authenticatedWallet c"
  "eventHandlers (handleDisconnect r c) = eventHandlers c"
  "sockets (handleDisconnect r c) = sockets c" "promises (handleDisconnect r c) = promises c"
  by (simp_all add: handleDisconnect_def Let_def)

lemma runCallback_fields [simp]:
  "socket (runCallback cb d c) = socket c" "options (runCallback cb d c) = options c"
  "eventHandlers (runCallback cb d c) = eventHandlers c"
  "sockets (runCallback cb d c) = sockets c"
  by (cases cb; simp add: Let_def)+

lemma runCallback_state:
  "cbName cb \<noteq> ''connect_error'' \<Longrightarrow> cbName cb \<noteq> ''disconnect'' \<Longrightarrow>
   state (runCallback cb d c) = state c \<or> state (runCallback cb d c) = Connected"
  by (cases cb) simp_all

lemma removeListener_fields [simp]:
  "socket (removeListener s cb c) = socket c" "options (removeListener s cb c) = options c"
  "state (removeListener s cb c) = state c"
  "reconnectAttempts (removeListener s cb c) = reconnectAttempts c"
  "reconnectTimer (removeListener s cb c) = reconnectTimer c"
  "authenticatedWallet (removeListener s cb c) = authenticatedWallet c"
  "eventHandlers (removeListener s cb c) = eventHandlers c"
  "timers (removeListener s cb c) = timers c" "promises (removeListener s cb c) = promises c"
  "trace (removeListener s cb c) = trace c"
  by (simp_all add: removeListener_def)

lemma removeListener_status [simp]:
  "map status (sockets (removeListener s cb c)) = map status (sockets c)"
  by (simp add: removeListener_def list_eq_iff_nth_eq nth_list_update)

lemma dispatchAll_fields [simp]:
  "socket (dispatchAll s cbs d c) = socket c" "options (dispatchAll s cbs d c) = options c"
  "eventHandlers (dispatchAll s cbs d c) = eventHandlers c"
  "map status (sockets (dispatchAll s cbs d c)) = map status (sockets c)"
  by (induction cbs arbitrary: c; simp)+

lemma dispatchAll_state:
  "\<forall>cb \<in> set cbs. cbName cb \<noteq> ''connect_error'' \<and> cbName cb \<noteq> ''disconnect'' \<Longrightarrow>
   state (dispatchAll s cbs d c) = state c \<or> state (dispatchAll s cbs d c) = Connected"
proof (induction cbs arbitrary: c)
  case Nil
  then show ?case by simp
next
  case (Cons cb cbs)
  let ?c1 = "runCallback cb d (if isOnce cb then removeListener s cb c else c)"
  from Cons.prems have a: "cbName cb \<noteq> ''connect_error''" "cbName cb \<noteq> ''disconnect''"
    and b: "\<forall>cb \<in> set cbs. cbName cb \<noteq> ''connect_error'' \<and> cbName cb \<noteq> ''disconnect''"
    by simp_all
  have "state ?c1 = state c \<or> state ?c1 = Connected"
    using runCallback_state [OF a, of d "if isOnce cb then removeListener s cb c else c"]
    by (simp split: if_splits)
  moreover have "state (dispatchAll s cbs d ?c1) = state ?c1
      \<or> state (dispatchAll s cbs d ?c1) = Connected"
    using Cons.IH [OF b] .
  ultimately show ?case by auto
qed

lemma connectListeners_not_once: "cb \<in> set (connectListeners p) \<Longrightarrow> \<not> isOnce cb"
  by (auto simp: connectListeners_def dataListeners_def)

lemma wfListeners_remove1: "isOnce cb \<Longrightarrow> wfListeners ls \<Longrightarrow> wfListeners (remove1 cb ls)"
proof -
  assume o: "isOnce cb" and w: "wfListeners ls"
  then obtain p auths where ls: "ls = connectListeners p @ auths" and a: "list_all isOnce auths"
    by (auto simp: wfListeners_def)
  have "cb \<notin> set (connectListeners p)" using o connectListeners_not_once by blast
  then have "remove1 cb ls = connectListeners p @ remove1 cb auths"
    by (simp add: ls remove1_append)
  moreover have "list_all isOnce (remove1 cb auths)"
    using a by (metis list_all_iff notin_set_remove1)
  ultimately show ?thesis unfolding wfListeners_def by blast
qed

lemma wfListeners_snoc: "isOnce cb \<Longrightarrow> wfListeners ls \<Longrightarrow> wfListeners (ls @ [cb])"
proof -
  assume o: "isOnce cb" and w: "wfListeners ls"
  then obtain p auths where ls: "ls = connectListeners p @ auths" and a: "list_all isOnce auths"
    by (auto simp: wfListeners_def)
  have "ls @ [cb] = connectListeners p @ (auths @ [cb])" by (simp add: ls)
  moreover have "list_all isOnce (auths @ [cb])" using a o by simp
  ultimately show ?thesis unfolding wfListeners_def by blast
qed

lemma wf_sockets_removeListener:
  "isOnce cb \<Longrightarrow> wf_sockets c \<Longrightarrow> wf_sockets (removeListener s cb c)"
  unfolding wf_sockets_def removeListener_def
  by (auto simp: set_conv_nth nth_list_update wfListeners_remove1)

lemma wf_sockets_addListener:
  "isOnce cb \<Longrightarrow> wf_sockets c \<Longrightarrow> wf_sockets (addListener s cb c)"
  unfolding wf_sockets_def addListener_def
  by (auto simp: set_conv_nth nth_list_update wfListeners_snoc)

lemma wf_sockets_dispatchAll: "wf_sockets c \<Longrightarrow> wf_sockets (dispatchAll s cbs d c)"
proof (induction cbs arbitrary: c)
  case Nil
  then show ?case by simp
next
  case (Cons cb cbs)
  have "wf_sockets (if isOnce cb then removeListener s cb c else c)"
    using Cons.prems wf_sockets_removeListener by simp
  then have "wf_sockets (runCallback cb d (if isOnce cb then removeListener s cb c else c))"
    by (simp add: wf_sockets_def)
  then show ?case using Cons.IH by simp
qed

lemma fold_addListener:
  "s < length (sockets c) \<Longrightarrow>
   fold (addListener s) cbs c =
     c\<lparr>sockets := (sockets c)[s := (sockets c ! s)\<lparr>listeners := listeners (sockets c ! s) @ cbs\<rparr>]\<rparr>"
  by (induction cbs arbitrary: c) (simp_all add: addListener_def)

lemma connect_noop: "state c = Connected \<or> state c = Connecting \<Longrightarrow> connect c = (ResolvedPromise, c)"
  by (simp add: connect_def)

lemma connect_opens:
  "state c \<noteq> Connected \<Longrightarrow> state c \<noteq> Connecting \<Longrightarrow>
   connect c = (PendingPromise (length (promises c)),
     (setState Connecting c)\<lparr>
        socket := Some (length (sockets c)),
        sockets := sockets c @ [\<lparr>status = Opening, listeners = connectListeners (length (promises c))\<rparr>],
        promises := promises c @ [Pending],
        trace := trace (setState Connecting c) @ [SocketOpened (length (sockets c)) (url (options c))]\<rparr>)"
proof -
  assume ns: "state c \<noteq> Connected" "state c \<noteq> Connecting"
  define c1 where "c1 = setState Connecting c"
  define p where "p = length (promises c)"
  define n where "n = length (sockets c)"
  define c3 where "c3 = (io (url (options c)) (c1\<lparr>promises := promises c1 @ [Pending]\<rparr>))\<lparr>socket := Some n\<rparr>"
  define c4 where "c4 = fold (addListener n) [CbConnected p, CbConnectError p, CbDisconnect, CbError] c3"
  have l3: "n < length (sockets c3)" "sockets c3 = sockets c @ [\<lparr>status = Opening, listeners = []\<rparr>]"
    by (simp_all add: c3_def c1_def io_def n_def)
  have e4: "c4 = c3\<lparr>sockets := sockets c @ [\<lparr>status = Opening,
               listeners = [CbConnected p, CbConnectError p, CbDisconnect, CbError]\<rparr>]\<rparr>"
    unfolding c4_def by (subst fold_addListener) (simp_all add: l3 n_def)
  have l4: "n < length (sockets c4)" "socket c4 = Some n" by (simp_all add: e4 n_def c3_def)
  have e5: "setupDataListeners c4 = c3\<lparr>sockets := sockets c @ [\<lparr>status = Opening,
               listeners = connectListeners p\<rparr>]\<rparr>"
    unfolding setupDataListeners_def l4 option.case
    by (subst fold_addListener) (simp_all add: l4 e4 n_def connectListeners_def)
  have "connect c = (PendingPromise p, setupDataListeners c4)"
    using ns by (simp add: connect_def Let_def c4_def c3_def c1_def p_def n_def io_def del: fold.simps fold_simps)
  then show ?thesis
    by (simp add: e5 c3_def c1_def p_def n_def io_def)
qed

subsection \<open>The invariant holds in every reachable client\<close>

lemma live_status: "i < length (sockets c) \<Longrightarrow> live (sockets c ! i) = (map status (sockets c) ! i \<noteq> Closed)"
  by (simp add: live_def)

lemma one_live_frame:
  assumes "one_live c" "map status (sockets c') = map status (sockets c)"
    "socket c' = socket c" "state c' = state c \<or> state c' = Connected"
  shows "one_live c'"
proof -
  have len: "length (sockets c') = length (sockets c)"
    using assms(2) by (metis length_map)
  show ?thesis
    unfolding one_live_def
  proof (intro allI impI)
    fix i assume i: "i < length (sockets c')" and l: "live (sockets c' ! i)"
    have "live (sockets c ! i)"
      using i l len assms(2) by (simp add: live_status)
    then have "socket c = Some i \<and> (state c = Connecting \<or> state c = Connected)"
      using assms(1) i len by (simp add: one_live_def)
    then show "socket c' = Some i \<and> (state c' = Connecting \<or> state c' = Connected)"
      using assms(3,4) by auto
  qed
qed

lemma no_live_frame:
  assumes "no_live c" "map status (sockets c') = map status (sockets c)"
  shows "no_live c'"
proof -
  have len: "length (sockets c') = length (sockets c)"
    using assms(2) by (metis length_map)
  show ?thesis
    unfolding no_live_def
  proof (intro allI impI)
    fix i assume i: "i < length (sockets c')"
    show "\<not> live (sockets c' ! i)"
      using i len assms by (simp add: live_status no_live_def)
  qed
qed

lemma no_live_one_live: "no_live c \<Longrightarrow> one_live c"
  by (simp add: no_live_def one_live_def)

lemma one_live_not_connecting:
  "one_live c \<Longrightarrow> state c \<noteq> Connected \<Longrightarrow> state c \<noteq> Connecting \<Longrightarrow> no_live c"
  by (auto simp: no_live_def one_live_def)

lemma one_live_no_socket: "one_live c \<Longrightarrow> socket c = None \<Longrightarrow> no_live c"
  by (auto simp: no_live_def one_live_def)

lemma setStatus_fields [simp]:
  "socket (setStatus s st c) = socket c" "options (setStatus s st c) = options c"
  "state (setStatus s st c) = state c"
  "reconnectAttempts (setStatus s st c) = reconnectAttempts c"
  "reconnectTimer (setStatus s st c) = reconnectTimer c"
  "authenticatedWallet (setStatus s st c) = authenticatedWallet c"
  "eventHandlers (setStatus s st c) = eventHandlers c"
  "timers (setStatus s st c) = timers c" "promises (setStatus s st c) = promises c"
  "trace (setStatus s st c) = trace c"
  "length (sockets (setStatus s st c)) = length (sockets c)"
  by (simp_all add: setStatus_def)

lemma wf_sockets_setStatus: "wf_sockets c \<Longrightarrow> wf_sockets (setStatus s st c)"
  unfolding wf_sockets_def setStatus_def
  by (auto simp: set_conv_nth nth_list_update)

lemma close_only_live:
  "one_live c \<Longrightarrow> socket c = Some s \<Longrightarrow> no_live (setStatus s Closed c)"
  unfolding one_live_def no_live_def setStatus_def
  by (auto simp: nth_list_update live_def)

lemma close_live:
  "one_live c \<Longrightarrow> s < length (sockets c) \<Longrightarrow> live (sockets c ! s) \<Longrightarrow>
   no_live (setStatus s Closed c)"
proof -
  assume a: "one_live c" and b: "s < length (sockets c)" and l: "live (sockets c ! s)"
  then have "socket c = Some s" by (simp add: one_live_def)
  with a show ?thesis by (rule close_only_live)
qed

lemma open_keeps_one_live:
  "one_live c \<Longrightarrow> hasStatus s Opening c \<Longrightarrow> one_live (setStatus s Open c)"
  unfolding one_live_def setStatus_def hasStatus_def
  by (auto simp: nth_list_update live_def split: if_splits)

lemma dispatch_fields [simp]:
  "socket (dispatch s n d c) = socket c" "options (dispatch s n d c) = options c"
  "eventHandlers (dispatch s n d c) = eventHandlers c"
  "map status (sockets (dispatch s n d c)) = map status (sockets c)"
  by (simp_all add: dispatch_def)

lemma wf_sockets_dispatch: "wf_sockets c \<Longrightarrow> wf_sockets (dispatch s n d c)"
  by (simp add: dispatch_def wf_sockets_dispatchAll)

lemma dispatch_state:
  "n \<noteq> ''connect_error'' \<Longrightarrow> n \<noteq> ''disconnect'' \<Longrightarrow>
   state (dispatch s n d c) = state c \<or> state (dispatch s n d c) = Connected"
  unfolding dispatch_def using dispatchAll_state [of "filter (\<lambda>cb. cbName cb = n) (listeners (sockets c ! s))" s d c]
  by auto

lemma socketDisconnect_fields [simp]:
  "socket (socketDisconnect s c) = socket c" "options (socketDisconnect s c) = options c"
  "eventHandlers (socketDisconnect s c) = eventHandlers c"
  by (simp_all add: socketDisconnect_def Let_def split: sock_status.split)

lemma wf_sockets_trace: "wf_sockets (c\<lparr>trace := t\<rparr>) = wf_sockets c"
  by (simp add: wf_sockets_def)

lemma wf_sockets_socketDisconnect: "wf_sockets c \<Longrightarrow> wf_sockets (socketDisconnect s c)"
  by (simp add: socketDisconnect_def Let_def wf_sockets_dispatch wf_sockets_setStatus
      wf_sockets_trace split: sock_status.split)

lemma no_live_socketDisconnect:
  assumes "one_live c" "socket c = Some s"
  shows "no_live (socketDisconnect s c)"
proof -
  let ?c1 = "c\<lparr>trace := trace c @ [SocketClosed s]\<rparr>"
  have o1: "one_live ?c1" using assms(1) by (simp add: one_live_def)
  have s1: "socket ?c1 = Some s" using assms(2) by simp
  have closed: "no_live (setStatus s Closed ?c1)" using close_only_live [OF o1 s1] .
  show ?thesis
  proof (cases "s < length (sockets c)")
    case False
    then have "socketDisconnect s c = ?c1" by (simp add: socketDisconnect_def Let_def)
    moreover have "no_live ?c1"
      using assms False by (auto simp: no_live_def one_live_def)
    ultimately show ?thesis by simp
  next
    case True
    show ?thesis
    proof (cases "status (sockets c ! s)")
      case Opening
      then show ?thesis using True closed by (simp add: socketDisconnect_def Let_def)
    next
      case Open
      then have "socketDisconnect s c
          = dispatch s ''disconnect'' (JStr ''io client disconnect'') (setStatus s Closed ?c1)"
        using True by (simp add: socketDisconnect_def Let_def)
      then show ?thesis using no_live_frame [OF closed] by simp
    next
      case Closed
      then have "socketDisconnect s c = ?c1" using True by (simp add: socketDisconnect_def Let_def)
      moreover have "no_live ?c1"
        using assms True Closed by (auto simp: no_live_def one_live_def live_def)
      ultimately show ?thesis by simp
    qed
  qed
qed

lemma inv_connect: assumes "client_inv c" shows "client_inv (snd (connect c))"
proof (cases "state c = Connected \<or> state c = Connecting")
  case True
  then show ?thesis using assms by (simp add: connect_noop)
next
  case False
  then have ns: "state c \<noteq> Connected" "state c \<noteq> Connecting" by simp_all
  have nl: "no_live c" using assms ns by (simp add: client_inv_def one_live_not_connecting)
  have w: "wfListeners (connectListeners (length (promises c)))"
    unfolding wfListeners_def by (rule exI [of _ "length (promises c)"], rule exI [of _ "[]"]) simp
  have "one_live (snd (connect c))"
    using nl unfolding connect_opens [OF ns] one_live_def no_live_def
    by (auto simp: nth_append)
  moreover have "wf_sockets (snd (connect c))"
    using assms w unfolding connect_opens [OF ns] by (auto simp: client_inv_def wf_sockets_def)
  ultimately show ?thesis by (simp add: client_inv_def)
qed

lemma inv_disconnect: assumes "client_inv c" shows "client_inv (disconnect c)"
proof -
  define c1 where "c1 = (case reconnectTimer c of
                 Some t \<Rightarrow> (clearTimeout t c)\<lparr>reconnectTimer := None\<rparr> | None \<Rightarrow> c)"
  define c2 where "c2 = (case socket c1 of
                 Some s \<Rightarrow> (socketDisconnect s c1)\<lparr>socket := None\<rparr> | None \<Rightarrow> c1)"
  have f1: "sockets c1 = sockets c" "socket c1 = socket c" "state c1 = state c"
    by (simp_all add: c1_def split: option.split)
  have i1: "one_live c1" "wf_sockets c1"
    using assms by (simp_all add: client_inv_def one_live_def wf_sockets_def f1)
  have n2: "no_live c2"
  proof (cases "socket c1")
    case None
    then show ?thesis using i1 by (simp add: c2_def one_live_no_socket)
  next
    case (Some s)
    then have "c2 = (socketDisconnect s c1)\<lparr>socket := None\<rparr>" by (simp add: c2_def)
    then show ?thesis using no_live_socketDisconnect [OF i1(1) Some] by (simp add: no_live_def)
  qed
  have w2: "wf_sockets c2"
    using i1(2) wf_sockets_socketDisconnect by (auto simp: c2_def wf_sockets_def split: option.split)
  have d: "disconnect c = (setState Disconnected c2)\<lparr>authenticatedWallet := JNull\<rparr>"
    unfolding disconnect_def c1_def c2_def Let_def ..
  have "no_live (disconnect c)" using n2 by (simp add: d no_live_def)
  moreover have "wf_sockets (disconnect c)" using w2 by (simp add: d wf_sockets_def)
  ultimately show ?thesis by (simp add: client_inv_def no_live_one_live)
qed

lemma inv_same_sockets:
  "client_inv c \<Longrightarrow> sockets c' = sockets c \<Longrightarrow> socket c' = socket c \<Longrightarrow> state c' = state c
   \<Longrightarrow> client_inv c'"
  by (simp add: client_inv_def one_live_def wf_sockets_def)

lemma addListener_fields [simp]:
  "socket (addListener s cb c) = socket c" "options (addListener s cb c) = options c"
  "state (addListener s cb c) = state c"
  "reconnectAttempts (addListener s cb c) = reconnectAttempts c"
  "reconnectTimer (addListener s cb c) = reconnectTimer c"
  "authenticatedWallet (addListener s cb c) = authenticatedWallet c"
  "eventHandlers (addListener s cb c) = eventHandlers c"
  "timers (addListener s cb c) = timers c" "promises (addListener s cb c) = promises c"
  "trace (addListener s cb c) = trace c"
  by (simp_all add: addListener_def)

lemma addListener_status [simp]:
  "map status (sockets (addListener s cb c)) = map status (sockets c)"
  by (simp add: addListener_def list_eq_iff_nth_eq nth_list_update)

lemma inv_authenticate: assumes "client_inv c" shows "client_inv (snd (authenticate w c))"
proof (cases "ensureConnected c")
  case (Inl e)
  then show ?thesis using assms by (simp add: authenticate_def)
next
  case (Inr s)
  define c2 where "c2 = setTimeout (AuthTimeout (length (promises c))) 10000
                          (c\<lparr>promises := promises c @ [Pending]\<rparr>)"
  define c4 where "c4 = addListener s (CbAuthError (length (timers c)) (length (promises c)))
            (addListener s (CbAuthenticated (length (timers c)) (length (promises c))) c2)"
  have e: "snd (authenticate w c)
            = socketEmit s ''authenticate'' (JObj [(''wallet'', JStr w)]) c4"
    using Inr by (simp add: authenticate_def Let_def c4_def c2_def)
  have i2: "client_inv c2"
    using assms by (rule inv_same_sockets) (simp_all add: c2_def)
  have "wf_sockets c4"
    using i2 by (simp add: c4_def client_inv_def wf_sockets_addListener)
  moreover have "one_live c4"
    using i2 by (auto simp: client_inv_def c4_def intro: one_live_frame)
  ultimately have "client_inv c4" by (simp add: client_inv_def)
  then show ?thesis unfolding e by (rule inv_same_sockets) (simp_all add: socketEmit_def)
qed

lemma inv_timerFires: assumes "client_inv c" shows "client_inv (timerFires t c)"
proof (cases "t < length (timers c) \<and> tstatus (timers c ! t) = TPending")
  case False
  then show ?thesis using assms by (auto simp: timerFires_def)
next
  case True
  define c1 where "c1 = c\<lparr>timers := (timers c)[t := (timers c ! t)\<lparr>tstatus := TFired\<rparr>]\<rparr>"
  have i1: "client_inv c1" using assms by (rule inv_same_sockets) (simp_all add: c1_def)
  show ?thesis
  proof (cases "tbody (timers c ! t)")
    case ReconnectTick
    then have "timerFires t c = snd (connect c1)"
      using True by (simp add: timerFires_def c1_def Let_def)
    then show ?thesis using inv_connect [OF i1] by simp
  next
    case (AuthTimeout p)
    then have "timerFires t c = settle p (Rejected (mkError (JStr ''Authentication timeout''))) c1"
      using True by (simp add: timerFires_def c1_def Let_def)
    then show ?thesis using i1 by (auto intro: inv_same_sockets)
  qed
qed

lemma inv_closed_dispatch:
  assumes "client_inv c" "s < length (sockets c)" "live (sockets c ! s)"
  shows "client_inv (dispatch s n d (setStatus s Closed c))"
proof -
  have "no_live (setStatus s Closed c)"
    using assms by (simp add: client_inv_def close_live)
  then have "no_live (dispatch s n d (setStatus s Closed c))"
    by (rule no_live_frame) simp
  moreover have "wf_sockets (dispatch s n d (setStatus s Closed c))"
    using assms(1) by (simp add: client_inv_def wf_sockets_dispatch wf_sockets_setStatus)
  ultimately show ?thesis by (simp add: client_inv_def no_live_one_live)
qed

lemma inv_message:
  assumes "client_inv c" "n \<notin> set reservedNames"
  shows "client_inv (dispatch s n d c)"
proof -
  have nn: "n \<noteq> ''connect_error''" "n \<noteq> ''disconnect''"
    using assms(2) by (auto simp: reservedNames_def)
  have "one_live (dispatch s n d c)"
    using assms(1) dispatch_state [OF nn, of s d c]
    by (auto simp: client_inv_def intro: one_live_frame)
  then show ?thesis using assms(1) by (simp add: client_inv_def wf_sockets_dispatch)
qed

lemma inv_step: assumes "client_inv c" shows "client_inv (step i c)"
proof (cases i)
  case CallConnect
  then show ?thesis using inv_connect [OF assms] by (simp add: step_def)
next
  case CallDisconnect
  then show ?thesis using inv_disconnect [OF assms] by (simp add: step_def)
next
  case (CallSubscribePrices x)
  then show ?thesis using assms
    by (auto simp: step_def subscribePrices_def socketEmit_def split: sum.split intro: inv_same_sockets)
next
  case (CallGetPrices x)
  then show ?thesis using assms
    by (auto simp: step_def getPrices_def socketEmit_def split: sum.split intro: inv_same_sockets)
next
  case (CallSubscribeOrderBook x)
  then show ?thesis using assms
    by (auto simp: step_def subscribeOrderBook_def socketEmit_def split: sum.split intro: inv_same_sockets)
next
  case (CallSubscribeTrades x)
  then show ?thesis using assms
    by (auto simp: step_def subscribeTrades_def socketEmit_def split: sum.split intro: inv_same_sockets)
next
  case (CallSubscribeCandles x y)
  then show ?thesis using assms
    by (auto simp: step_def subscribeCandles_def socketEmit_def split: sum.split intro: inv_same_sockets)
next
  case (CallUnsubscribe x)
  then show ?thesis using assms
    by (auto simp: step_def unsubscribe_def socketEmit_def split: sum.split intro: inv_same_sockets)
next
  case (CallAuthenticate w)
  then show ?thesis using inv_authenticate [OF assms] by (simp add: step_def)
next
  case CallGetBalance
  then show ?thesis using assms
    by (auto simp: step_def getBalance_def socketEmitAck_def Let_def
        split: sum.split option.split intro: inv_same_sockets)
next
  case (CallOn e h)
  then show ?thesis using assms
    by (auto simp: step_def on_def Let_def intro: inv_same_sockets)
next
  case (CallOff e h)
  then show ?thesis using assms
    by (auto simp: step_def off_def split: option.split intro: inv_same_sockets)
next
  case (CallRemoveAllListeners e)
  then show ?thesis using assms
    by (auto simp: step_def removeAllListeners_def split: option.split intro: inv_same_sockets)
next
  case (TransportConnect s)
  then show ?thesis using assms
    by (auto simp: step_def client_inv_def open_keeps_one_live wf_sockets_setStatus)
next
  case (TransportConnectError s e)
  then show ?thesis using assms inv_closed_dispatch [OF assms, of s]
    by (auto simp: step_def hasStatus_def live_def)
next
  case (TransportDisconnect s r)
  then show ?thesis using assms inv_closed_dispatch [OF assms, of s]
    by (auto simp: step_def hasStatus_def live_def)
next
  case (ServerMessage s n d)
  then show ?thesis using assms inv_message [OF assms]
    by (auto simp: step_def)
next
  case (ServerAck s p v)
  then show ?thesis using assms by (auto simp: step_def intro: inv_same_sockets)
next
  case (TimerFires t)
  then show ?thesis using inv_timerFires [OF assms] by (simp add: step_def)
qed

lemma inv_run: "client_inv c \<Longrightarrow> client_inv (run is c)"
  by (induction "is" arbitrary: c) (simp_all add: inv_step)

lemma inv_newClient: "client_inv (newClient opts)"
  by (simp add: client_inv_def one_live_def wf_sockets_def newClient_def Let_def)

lemma inv_reachable: "client_inv (run is (newClient opts))"
  by (simp add: inv_run inv_newClient)

subsection \<open>Consequences\<close>

lemma trace_emit:
  "trace (emit e d c) = trace c @ Emitted e d # deliver e d (handlersFor c e)"
  by (simp add: emit_def handlersFor_def split: option.split)

lemma trace_setState:
  "trace (setState s c) = trace c @ Emitted ''stateChange'' (JStr (stateName s))
      # deliver ''stateChange'' (JStr (stateName s)) (handlersFor c ''stateChange'')"
  by (simp add: setState_def trace_emit handlersFor_def)




lemma runCallback_client_disconnect:
  "cbName cb = ''disconnect'' \<Longrightarrow>
   reconnectTimer (runCallback cb (JStr ''io client disconnect'') c) = reconnectTimer c"
  by (cases cb) (simp_all add: handleDisconnect_def Let_def)

lemma dispatchAll_client_disconnect:
  "\<forall>cb \<in> set cbs. cbName cb = ''disconnect'' \<Longrightarrow>
   reconnectTimer (dispatchAll s cbs (JStr ''io client disconnect'') c) = reconnectTimer c"
proof (induction cbs arbitrary: c)
  case Nil
  then show ?case by simp
next
  case (Cons cb cbs)
  then have n: "cbName cb = ''disconnect''" and r: "\<forall>cb \<in> set cbs. cbName cb = ''disconnect''"
    by simp_all
  have "\<not> isOnce cb" using n by (cases cb) simp_all
  then show ?case
    using Cons.IH [OF r] runCallback_client_disconnect [OF n] by simp
qed

lemma socketDisconnect_reconnectTimer:
  "reconnectTimer (socketDisconnect s c) = reconnectTimer c"
  by (simp add: socketDisconnect_def Let_def dispatch_def dispatchAll_client_disconnect
      split: sock_status.split)

lemma disconnect_shape:
  "socket (disconnect c) = None" "reconnectTimer (disconnect c) = None"
  "state (disconnect c) = Disconnected" "authenticatedWallet (disconnect c) = JNull"
  by (simp_all add: disconnect_def Let_def socketDisconnect_reconnectTimer split: option.split)

lemma disconnect_when_disconnected:
  assumes "socket c = None" "reconnectTimer c = None"
  shows "disconnect c = (setState Disconnected c)\<lparr>authenticatedWallet := JNull\<rparr>"
  using assms by (simp add: disconnect_def Let_def)

subsection \<open>Listeners of a reachable socket\<close>

lemma once_names: "isOnce cb \<Longrightarrow> cbName cb = ''authenticated'' \<or> cbName cb = ''auth:error''"
  by (cases cb) simp_all

lemma filter_auths:
  "list_all isOnce auths \<Longrightarrow> n \<noteq> ''authenticated'' \<Longrightarrow> n \<noteq> ''auth:error'' \<Longrightarrow>
   filter (\<lambda>cb. cbName cb = n) auths = []"
  using once_names by (auto simp: filter_empty_conv list_all_iff)

lemma listeners_named:
  assumes "wf_sockets c" "s < length (sockets c)" "n \<noteq> ''authenticated''" "n \<noteq> ''auth:error''"
  shows "\<exists>p. filter (\<lambda>cb. cbName cb = n) (listeners (sockets c ! s))
            = filter (\<lambda>cb. cbName cb = n) (connectListeners p)"
proof -
  have "wfListeners (listeners (sockets c ! s))"
    using assms(1,2) by (simp add: wf_sockets_def)
  then obtain p auths where l: "listeners (sockets c ! s) = connectListeners p @ auths"
    and a: "list_all isOnce auths" by (auto simp: wfListeners_def)
  show ?thesis using filter_auths [OF a assms(3,4)] by (auto simp: l)
qed


lemma snapshot_listener:
  "filter (\<lambda>cb. cbName cb = ''prices:snapshot'') (connectListeners p)
     = [CbRelay ''prices:snapshot'' ''prices'']"
  by (simp add: connectListeners_def dataListeners_def)

lemma update_listener:
  "filter (\<lambda>cb. cbName cb = ''prices:update'') (connectListeners p)
     = [CbRelay ''prices:update'' ''prices'']"
  by (simp add: connectListeners_def dataListeners_def)

lemma wf_reachable: "wf_sockets (run is (newClient opts))"
  using inv_reachable [of "is" opts] by (simp add: client_inv_def)


lemma relay_step:
  assumes "wf_sockets c" "hasStatus s Open c"
    "\<And>p. filter (\<lambda>cb. cbName cb = n) (connectListeners p) = [CbRelay n dst]"
    "n \<noteq> ''authenticated''" "n \<noteq> ''auth:error''" "n \<notin> set reservedNames"
  shows "step (ServerMessage s n d) c = emit dst d c"
proof -
  have s: "s < length (sockets c)" using assms(2) by (simp add: hasStatus_def)
  have f: "filter (\<lambda>cb. cbName cb = n) (listeners (sockets c ! s)) = [CbRelay n dst]"
    using listeners_named [OF assms(1) s assms(4,5)] assms(3) by auto
  show ?thesis using assms(2,6) s f by (simp add: step_def dispatch_def)
qed










text \<open>
  A reconnect timer is not cancelled by \<open>connect\<close>: when the caller connects while a
  retry is scheduled and that attempt exhausts the retries, the old timer is still
  pending and later leaves \<open>error\<close> by itself.
\<close>

lemma stale_timer_leaves_error:
  "state staleTimer = Error \<and> pendingReconnects staleTimer = [0] \<and>
   state (step (TimerFires 0) staleTimer) = Connecting"
  by code_simp

section \<open>Claims\<close>

subsection \<open>C1: one live transport\<close>



subsection \<open>C2: the authenticated wallet and disconnects\<close>

text \<open>
  Claim C2 does not hold of the code. \<open>disconnect()\<close> clears \<open>authenticatedWallet\<close>,
  \<open>handleDisconnect\<close> does not: after the transport went down the wallet of the lost
  session is still set, although no handshake succeeded since; once the retry is
  acknowledged \<open>getBalance()\<close> passes \<open>ensureAuthenticated\<close> and sends its request on
  a socket on which no \<open>authenticate\<close> was ever sent.
\<close>

theorem wallet_survives_transport_disconnect:
  "authenticatedWallet authenticated = JStr ''0xabc'' \<and>
   authenticatedWallet (step CallDisconnect authenticated) = JNull \<and>
   authenticatedWallet dropped = JStr ''0xabc'' \<and>
   state dropped = Reconnecting \<and> liveSockets dropped = [] \<and>
   authenticatedWallet resumed = JStr ''0xabc'' \<and> socket resumed = Some 1 \<and>
   fst (exec CallGetBalance resumed) = PendingPromise 3 \<and>
   last (trace (snd (exec CallGetBalance resumed))) = SocketSentAck 1 ''get:userBalance'' 3"
  by code_simp

subsection \<open>C3: disconnecting twice\<close>

text \<open>
  Claim C3, as the code has it. \<open>disconnect()\<close> has no throwing path and returns. Called
  a second time right after a first call it changes no field of the client and sends
  nothing to a socket, but \<open>setState\<close> emits unconditionally: the second call emits
  exactly one event, \<open>stateChange\<close> with \<open>disconnected\<close>, and every handler registered
  for \<open>stateChange\<close> is invoked once more.
\<close>

theorem second_disconnect:
  "let c1 = snd (exec CallDisconnect c); r = exec CallDisconnect c1 in
     fst r = Returns \<and>
     snd r = c1\<lparr>trace := trace (snd r)\<rparr> \<and>
     emitted (drop (length (trace c1)) (trace (snd r))) = [(''stateChange'', JStr ''disconnected'')] \<and>
     invoked (drop (length (trace c1)) (trace (snd r))) =
       map (\<lambda>h. (''stateChange'', hid h, JStr ''disconnected'')) (handlersFor c1 ''stateChange'') \<and>
     transportIO (drop (length (trace c1)) (trace (snd r))) = []"
proof -
  let ?c1 = "disconnect c"
  have d: "disconnect ?c1 = (setState Disconnected ?c1)\<lparr>authenticatedWallet := JNull\<rparr>"
    by (rule disconnect_when_disconnected) (simp_all add: disconnect_shape)
  have e: "(setState Disconnected ?c1)\<lparr>authenticatedWallet := JNull\<rparr>
            = ?c1\<lparr>trace := trace (setState Disconnected ?c1)\<rparr>"
    by (simp add: setState_def emit_def disconnect_shape)
  show ?thesis
    by (simp add: Let_def d e trace_setState invoked_deliver)
qed

text \<open>
  Claim C3 as stated fails: a caller that watches \<open>stateChange\<close>, connects and
  disconnects, sees one more event when it calls \<open>disconnect()\<close> again.
\<close>

theorem second_disconnect_counterexample:
  "state watched = Disconnected \<and>
   emitted (drop (length (trace watched)) (trace (snd (exec CallDisconnect watched))))
     = [(''stateChange'', JStr ''disconnected'')] \<and>
   invoked (drop (length (trace watched)) (trace (snd (exec CallDisconnect watched))))
     = [(''stateChange'', 2, JStr ''disconnected'')]"
  by code_simp

text \<open>Claim C3, the amended statement at the same run.\<close>

theorem second_disconnect_witness:
  "fst (exec CallDisconnect (snd (exec CallDisconnect watching))) = Returns \<and>
   emitted (drop (length (trace (snd (exec CallDisconnect watching))))
             (trace (snd (exec CallDisconnect (snd (exec CallDisconnect watching))))))
     = [(''stateChange'', JStr ''disconnected'')]"
  using second_disconnect [of watching] by (simp add: Let_def)

subsection \<open>C4: the connection acknowledgment\<close>




subsection \<open>C5: the error state\<close>




subsection \<open>C6: backoff and exhaustion\<close>



subsection \<open>C7: connected-only methods\<close>

text \<open>
  Claim C7. When the state is not \<open>connected\<close>, each of the eight connected-only
  methods fails with the error \<open>Not connected. Call connect() first.\<close> as the result of
  the call itself: the six synchronous methods throw it, the two \<open>async\<close> methods
  (\<open>authenticate\<close>, \<open>getBalance\<close>) return a promise already rejected with it. The
  client is returned as it was: nothing is sent on a socket and nothing is emitted.
\<close>

theorem connected_only_methods_need_connection:
  "state c \<noteq> Connected \<Longrightarrow>
     exec (CallSubscribePrices asset) c = (Throws notConnected, c) \<and>
     exec (CallGetPrices assets) c = (Throws notConnected, c) \<and>
     exec (CallSubscribeOrderBook a) c = (Throws notConnected, c) \<and>
     exec (CallSubscribeTrades a) c = (Throws notConnected, c) \<and>
     exec (CallSubscribeCandles a i) c = (Throws notConnected, c) \<and>
     exec (CallUnsubscribe room) c = (Throws notConnected, c) \<and>
     exec (CallAuthenticate wallet) c = (RejectedPromise notConnected, c) \<and>
     exec CallGetBalance c = (RejectedPromise notConnected, c)"
  by (simp add: subscribePrices_def getPrices_def subscribeOrderBook_def subscribeTrades_def
        subscribeCandles_def unsubscribe_def authenticate_def getBalance_def ensureConnected_def
      split: option.split)

text \<open>Claim C7, on a client that was never connected.\<close>

theorem connected_only_methods_need_connection_witness:
  "state freshClient \<noteq> Connected \<and>
   exec (CallSubscribePrices None) freshClient = (Throws notConnected, freshClient) \<and>
   exec (CallAuthenticate ''0xabc'') freshClient = (RejectedPromise notConnected, freshClient)"
proof -
  have h: "state freshClient \<noteq> Connected"
    by (simp add: freshClient_def newClient_def Let_def)
  show ?thesis
    using h connected_only_methods_need_connection
                [OF h, of None "[]" "[]" "[]" "[]" "''0xabc''"]
    by simp
qed

subsection \<open>C8: a handler that throws\<close>

text \<open>
  Claim C8. On every emission for an event with registered handlers, every handler is
  invoked, in order, with the payload, whichever of them throw; each exception is
  written to \<open>console.error\<close> where it was caught; the registry is the same afterwards,
  and \<open>emit\<close> hands the client back to the socket listener that called it with nothing
  but the trace extended.
\<close>

theorem emit_survives_throwing_handlers:
  "eventHandlers c event = Some hs \<Longrightarrow>
     invoked (drop (length (trace c)) (trace (emit event d c))) = map (\<lambda>h. (event, hid h, d)) hs
   \<and> consoleErrors (drop (length (trace c)) (trace (emit event d c)))
       = map (Pair event) (List.map_filter (\<lambda>h. hbody h d) hs)
   \<and> eventHandlers (emit event d c) = eventHandlers c
   \<and> emit event d c = c\<lparr>trace := trace (emit event d c)\<rparr>"
  by (simp add: emit_def invoked_deliver consoleErrors_deliver)

text \<open>
  Claim C8, with two handlers for \<open>prices\<close> of which the first throws: the second is
  still invoked.
\<close>

theorem emit_survives_throwing_handlers_witness:
  "eventHandlers twoHandlers ''prices'' = Some [thrower, quiet] \<and>
   invoked (drop (length (trace twoHandlers)) (trace (emit ''prices'' (JArr []) twoHandlers)))
     = [(''prices'', 1, JArr []), (''prices'', 2, JArr [])] \<and>
   consoleErrors (drop (length (trace twoHandlers)) (trace (emit ''prices'' (JArr []) twoHandlers)))
     = [(''prices'', JStr ''boom'')]"
proof -
  have h: "eventHandlers twoHandlers ''prices'' = Some [thrower, quiet]"
    by (simp add: twoHandlers_def step_def on_def freshClient_def newClient_def Let_def
        thrower_def quiet_def)
  show ?thesis
    using h emit_survives_throwing_handlers [OF h, of "JArr []"]
    by (simp add: thrower_def quiet_def List.map_filter_simps)
qed

subsection \<open>C9: price snapshots and updates\<close>

text \<open>
  Claim C9. On an open socket of a reachable client, a \<open>prices:snapshot\<close> message and a
  \<open>prices:update\<close> message each make the client emit \<open>prices\<close> once and nothing else,
  two emissions for the pair, and each handler registered for \<open>prices\<close> is invoked
  with the payload as it was received.
\<close>

theorem prices_snapshot_and_update:
  "c = run is (newClient opts) \<Longrightarrow> hasStatus s Open c \<Longrightarrow>
   (let c1 = step (ServerMessage s ''prices:snapshot'' d1) c;
        c2 = step (ServerMessage s ''prices:update'' d2) c1
    in emitted (drop (length (trace c)) (trace c1)) = [(''prices'', d1)] \<and>
       invoked (drop (length (trace c)) (trace c1))
         = map (\<lambda>h. (''prices'', hid h, d1)) (handlersFor c ''prices'') \<and>
       emitted (drop (length (trace c1)) (trace c2)) = [(''prices'', d2)] \<and>
       invoked (drop (length (trace c1)) (trace c2))
         = map (\<lambda>h. (''prices'', hid h, d2)) (handlersFor c ''prices'') \<and>
       emitted (drop (length (trace c)) (trace c2)) = [(''prices'', d1), (''prices'', d2)])"
proof -
  assume r: "c = run is (newClient opts)" and o: "hasStatus s Open c"
  have w: "wf_sockets c" using r wf_reachable by simp
  have e1: "step (ServerMessage s ''prices:snapshot'' d1) c = emit ''prices'' d1 c"
    using w o by (rule relay_step) (simp_all add: snapshot_listener reservedNames_def)
  let ?c1 = "emit ''prices'' d1 c"
  have w1: "wf_sockets ?c1" using w by (simp add: wf_sockets_def)
  have o1: "hasStatus s Open ?c1" using o by (simp add: hasStatus_def)
  have e2: "step (ServerMessage s ''prices:update'' d2) ?c1 = emit ''prices'' d2 ?c1"
    using w1 o1 by (rule relay_step) (simp_all add: update_listener reservedNames_def)
  have h: "handlersFor ?c1 ''prices'' = handlersFor c ''prices''"
    by (simp add: handlersFor_def)
  show ?thesis
    unfolding Let_def e1 e2 by (simp add: trace_emit invoked_deliver h)
qed

text \<open>Claim C9, on a connected client with one handler for \<open>prices\<close>.\<close>

theorem prices_snapshot_and_update_witness:
  "hasStatus 0 Open acked \<and>
   emitted (drop (length (trace acked))
      (trace (step (ServerMessage 0 ''prices:update'' (JArr [JStr ''ETH'']))
               (step (ServerMessage 0 ''prices:snapshot'' (JArr [JStr ''BTC''])) acked))))
     = [(''prices'', JArr [JStr ''BTC'']), (''prices'', JArr [JStr ''ETH''])] \<and>
   invoked (drop (length (trace acked))
      (trace (step (ServerMessage 0 ''prices:snapshot'' (JArr [JStr ''BTC''])) acked)))
     = [(''prices'', 2, JArr [JStr ''BTC''])]"
proof -
  have h: "hasStatus 0 Open acked" by code_simp
  have q: "map (\<lambda>h. (''prices'', hid h, JArr [JStr ''BTC''])) (handlersFor acked ''prices'')
             = [(''prices'', 2, JArr [JStr ''BTC''])]"
    by code_simp
  show ?thesis
    using h q prices_snapshot_and_update
                [OF acked_def h, of "JArr [JStr ''BTC'']" "JArr [JStr ''ETH'']"]
    by (simp add: Let_def)
qed

subsection \<open>C10: an authentication answered after its timeout\<close>



end
